theory Spec2Isabelle
  imports Main "HOL-Library.Sublist" "HOL-Library.Char_ord" "HOL-Library.List_Lexorder"
begin

section \<open>Strings\<close>

text \<open>
  A Python \<open>str\<close> is modelled as a \<open>string\<close>; each \<open>char\<close> stands for the code
  point of the same number, so the model covers the texts whose code points are below
  256. The comparison of \<open>Char_ord\<close> and \<open>List_Lexorder\<close> is then Python's
  comparison of strings (lexicographic, by code point).
\<close>

abbreviation (input) LF :: char where "LF \<equiv> CHR 0x0A"
abbreviation (input) CR :: char where "CR \<equiv> CHR 0x0D"
abbreviation (input) QUOTE :: char where "QUOTE \<equiv> CHR 0x27"
abbreviation (input) BACKSLASH :: char where "BACKSLASH \<equiv> CHR 0x5C"
abbreviation (input) SLASH :: char where "SLASH \<equiv> CHR 0x2F"
abbreviation (input) HASH :: char where "HASH \<equiv> CHR 0x23"

text \<open>\<open>str.isspace\<close> on one character: the code points below 256 that Python counts
  as whitespace (tab to carriage return, the four separators 28 to 31, the space,
  NEL and the no-break space).\<close>

definition isspace :: "char \<Rightarrow> bool" where
  "isspace c = (of_char c \<in> {9, 10, 11, 12, 13, 28, 29, 30, 31, 32, 133, 160 :: nat})"

text \<open>\<open>s.strip()\<close>: whitespace removed at both ends.\<close>

definition lstrip :: "string \<Rightarrow> string" where
  "lstrip s = dropWhile isspace s"

definition rstrip :: "string \<Rightarrow> string" where
  "rstrip s = rev (dropWhile isspace (rev s))"

definition strip :: "string \<Rightarrow> string" where
  "strip s = rstrip (lstrip s)"

text \<open>\<open>s.startswith(p)\<close>.\<close>

definition startswith :: "string \<Rightarrow> string \<Rightarrow> bool" where
  "startswith s p = prefix p s"

text \<open>\<open>s.replace("'", "\\'")\<close>: the pattern is one character, so the occurrences
  cannot overlap and every quote is replaced by a backslash and a quote.\<close>

fun replace_quote :: "string \<Rightarrow> string" where
  "replace_quote [] = []"
| "replace_quote (c # cs) =
     (if c = QUOTE then BACKSLASH # QUOTE # replace_quote cs else c # replace_quote cs)"

text \<open>\<open>sep.join(xs)\<close>.\<close>

fun join :: "string \<Rightarrow> string list \<Rightarrow> string" where
  "join sep [] = []"
| "join sep [x] = x"
| "join sep (x # y # ys) = x @ sep @ join sep (y # ys)"

section \<open>Paths (pathlib, POSIX flavour)\<close>

text \<open>
  A \<open>pathlib.Path\<close> on POSIX is its root (\<open>""\<close>, \<open>"/"\<close> or \<open>"//"\<close>) and the list of
  its components. \<open>Path(s)\<close> parses a string: the root is read off the leading slashes
  (exactly two give \<open>"//"\<close>), and the empty and \<open>"."\<close> components are dropped.
\<close>

datatype path = PosixPath (anchor: string) (names: "string list")

fun split_sep :: "string \<Rightarrow> string \<Rightarrow> string list" where
  "split_sep acc [] = [acc]"
| "split_sep acc (c # cs) =
     (if c = SLASH then acc # split_sep [] cs else split_sep (acc @ [c]) cs)"

definition splitroot :: "string \<Rightarrow> string" where
  "splitroot s =
     (let n = length (takeWhile (\<lambda>c. c = SLASH) s)
      in if n = 0 then [] else if n = 2 then [SLASH, SLASH] else [SLASH])"

definition Path :: "string \<Rightarrow> path" where
  "Path s = PosixPath (splitroot s) (filter (\<lambda>x. x \<noteq> [] \<and> x \<noteq> ''.'') (split_sep [] s))"

text \<open>\<open>str(p)\<close>; \<open>p.as_posix()\<close> is the same string on POSIX.\<close>

definition str :: "path \<Rightarrow> string" where
  "str p = (if anchor p = [] \<and> names p = [] then ''.'' else anchor p @ join [SLASH] (names p))"

definition as_posix :: "path \<Rightarrow> string" where
  "as_posix p = str p"

text \<open>\<open>p.relative_to(other)\<close>: \<open>None\<close> stands for the \<open>ValueError\<close> raised when
  \<open>other\<close> is not \<open>p\<close> or one of its parents.\<close>

definition relative_to :: "path \<Rightarrow> path \<Rightarrow> path option" where
  "relative_to p other =
     (if anchor p = anchor other \<and> prefix (names other) (names p)
      then Some (PosixPath [] (drop (length (names other)) (names p)))
      else None)"

text \<open>\<open>os.path.isabs(s)\<close> on POSIX.\<close>

definition isabs :: "string \<Rightarrow> bool" where
  "isabs s = startswith s [SLASH]"

section \<open>The file system\<close>

text \<open>
  What the program sees of the file system. A name is the string handed to \<open>open\<close>
  or \<open>os.path\<close>. A regular file carries its permissions and its content: \<open>Text t\<close>
  when its bytes decode from UTF-8 to \<open>t\<close>, and \<open>Undecodable pre\<close> when they do not,
  where \<open>pre\<close> is the text that the decoder hands over before it raises (the chunks
  before the one that fails). \<open>may_create\<close> says whether a missing name can be
  created. \<open>resolve\<close> and \<open>rglob\<close> are the results of \<open>Path.resolve()\<close>
  (it follows symbolic links and the working directory) and of
  \<open>Path.rglob('*')\<close> (the enumeration order of the file system).
\<close>

datatype content = Text string | Undecodable string

datatype node = Directory | Regular (readable: bool) (writable: bool) (decoded: content)

datatype exn =
  FileNotFoundError | IsADirectoryError | PermissionError | UnicodeDecodeError | ValueError

record fsys =
  node :: "string \<Rightarrow> node option"
  may_create :: "string \<Rightarrow> bool"
  resolve :: "path \<Rightarrow> path"
  rglob :: "path \<Rightarrow> path list"

definition exists :: "fsys \<Rightarrow> string \<Rightarrow> bool" where
  "exists fs name = (node fs name \<noteq> None)"

definition isfile :: "fsys \<Rightarrow> string \<Rightarrow> bool" where
  "isfile fs name = (case node fs name of Some (Regular r w d) \<Rightarrow> True | _ \<Rightarrow> False)"

text \<open>Text mode with \<open>newline=None\<close> translates \<open>"\\r\\n"\<close> and \<open>"\\r"\<close> to
  \<open>"\\n"\<close> on reading.\<close>

fun universal_newlines :: "string \<Rightarrow> string" where
  "universal_newlines [] = []"
| "universal_newlines [c] = [if c = CR then LF else c]"
| "universal_newlines (c # d # cs) =
     (if c = CR \<and> d = LF then LF # universal_newlines cs
      else if c = CR then LF # universal_newlines (d # cs)
      else c # universal_newlines (d # cs))"

text \<open>\<open>open(name, 'r', encoding='utf-8')\<close> followed by \<open>f.read()\<close>.\<close>

definition read_text :: "fsys \<Rightarrow> string \<Rightarrow> exn + string" where
  "read_text fs name =
     (case node fs name of
        None \<Rightarrow> Inl FileNotFoundError
      | Some Directory \<Rightarrow> Inl IsADirectoryError
      | Some (Regular r w d) \<Rightarrow>
          (if \<not> r then Inl PermissionError
           else case d of Undecodable pre \<Rightarrow> Inl UnicodeDecodeError
                | Text t \<Rightarrow> Inr (universal_newlines t)))"

text \<open>\<open>open(name, 'w', encoding='utf-8')\<close> followed by the writes that make up
  \<open>text\<close>: the file is created or overwritten. On POSIX a newline is written as it
  is. A file that is created can be read and written afterwards.\<close>

definition write_text :: "fsys \<Rightarrow> string \<Rightarrow> string \<Rightarrow> exn + fsys" where
  "write_text fs name text =
     (case node fs name of
        None \<Rightarrow>
          (if may_create fs name
           then Inr (fs\<lparr>node := (node fs)(name \<mapsto> Regular True True (Text text))\<rparr>)
           else Inl PermissionError)
      | Some Directory \<Rightarrow> Inl IsADirectoryError
      | Some (Regular r w d) \<Rightarrow>
          (if w then Inr (fs\<lparr>node := (node fs)(name \<mapsto> Regular r w (Text text))\<rparr>)
           else Inl PermissionError))"

text \<open>\<open>for line in f\<close>: the lines of a text, each with its newline; a text that
  does not end in a newline has a last line without one.\<close>

fun readlines :: "string \<Rightarrow> string \<Rightarrow> string list" where
  "readlines acc [] = (if acc = [] then [] else [acc])"
| "readlines acc (c # cs) =
     (if c = LF then (acc @ [c]) # readlines [] cs else readlines (acc @ [c]) cs)"

text \<open>
  \<open>open(name, 'r', encoding='utf-8')\<close> followed by \<open>for line in f\<close>: the exception
  of \<open>open\<close>, or the lines that the loop receives together with the exception that
  ends the iteration, if there is one. The file is decoded while it is iterated: when
  its bytes do not decode, the loop has received the complete lines of the text before
  the failure (a last line without its newline is not handed over) and the body of the
  loop has run on them before \<open>UnicodeDecodeError\<close> is raised.
\<close>

definition complete_lines :: "string \<Rightarrow> string list" where
  "complete_lines t = filter (\<lambda>l. l \<noteq> [] \<and> last l = LF) (readlines [] t)"

definition iterate_lines :: "fsys \<Rightarrow> string \<Rightarrow> exn + string list \<times> exn option" where
  "iterate_lines fs name =
     (case node fs name of
        None \<Rightarrow> Inl FileNotFoundError
      | Some Directory \<Rightarrow> Inl IsADirectoryError
      | Some (Regular r w d) \<Rightarrow>
          (if \<not> r then Inl PermissionError
           else case d of
                  Text t \<Rightarrow> Inr (readlines [] (universal_newlines t), None)
                | Undecodable pre \<Rightarrow>
                    Inr (complete_lines (universal_newlines pre), Some UnicodeDecodeError)))"

section \<open>The path filter and the directory walker\<close>

text \<open>\<open>should_ignore(file_path, target_folder, ignore_set)\<close>. The loop over the set
  returns at the first pattern that matches, so its result is whether some pattern of
  the set matches.\<close>

definition should_ignore :: "fsys \<Rightarrow> path \<Rightarrow> path \<Rightarrow> string set \<Rightarrow> bool" where
  "should_ignore fs file_path target_folder ignore_set =
     (let abs_file = resolve fs file_path
      in case relative_to file_path target_folder of
           None \<Rightarrow> True
         | Some rel \<Rightarrow>
             (let rel_file = as_posix rel
              in \<exists>ignore\<in>ignore_set.
                   if isabs ignore then startswith (str abs_file) ignore
                   else startswith rel_file ignore))"

text \<open>\<open>get_all_files(target_folder, ignore_set)\<close>.\<close>

definition get_all_files :: "fsys \<Rightarrow> string \<Rightarrow> string set \<Rightarrow> path list" where
  "get_all_files fs target_folder ignore_set =
     (let target_path = Path target_folder
      in filter (\<lambda>file_path. isfile fs (str file_path)
                    \<and> \<not> should_ignore fs file_path target_path ignore_set)
           (rglob fs target_path))"

section \<open>The ignore-set store\<close>

definition IGNORE_FILE :: string where "IGNORE_FILE = ''ignore_paths.txt''"
definition OUTPUT_FILE :: string where "OUTPUT_FILE = ''codebase_prompt.txt''"
definition INDIVIDUAL_FILES_SCRIPT :: string where "INDIVIDUAL_FILES_SCRIPT = ''individual_files.sh''"
definition TARGET_FILES_FILE :: string where "TARGET_FILES_FILE = ''target_files.txt''"

text \<open>The loop of \<open>load_ignore_paths\<close> over the lines of the file.\<close>

fun load_ignore_loop :: "string list \<Rightarrow> string set \<Rightarrow> string set" where
  "load_ignore_loop [] ignore_set = ignore_set"
| "load_ignore_loop (line # lines) ignore_set =
     (let line = strip line
      in if line \<noteq> [] then load_ignore_loop lines (insert line ignore_set)
         else load_ignore_loop lines ignore_set)"

text \<open>\<open>load_ignore_paths()\<close>: an exception of \<open>open\<close> or of the iteration is not
  caught.\<close>

definition load_ignore_paths :: "fsys \<Rightarrow> exn + string set" where
  "load_ignore_paths fs =
     (let ignore_set = {}
      in if exists fs IGNORE_FILE
         then (case iterate_lines fs IGNORE_FILE of
                 Inl e \<Rightarrow> Inl e
               | Inr (lines, raised) \<Rightarrow>
                   (let ignore_set = load_ignore_loop lines ignore_set
                    in case raised of Some e \<Rightarrow> Inl e | None \<Rightarrow> Inr ignore_set))
         else Inr ignore_set)"

text \<open>\<open>save_ignore_paths(ignore_set)\<close>: \<open>sorted\<close> of a (finite) set of strings, each
  written with a newline. Once \<open>open\<close> has succeeded the writes are taken to succeed.\<close>

definition save_ignore_paths :: "fsys \<Rightarrow> string set \<Rightarrow> exn + fsys" where
  "save_ignore_paths fs ignore_set =
     write_text fs IGNORE_FILE
       (concat (map (\<lambda>path. path @ [LF]) (sorted_list_of_set ignore_set)))"

section \<open>The prompt serializer\<close>

text \<open>
  What the program prints is kept as a list of messages, one constructor for each
  \<open>print\<close> of the functions modelled:
  \<^item> \<open>ErrorReading p e\<close>: \<open>Error reading {p}: {e}\<close>;
  \<^item> \<open>WarningInvalid p src\<close>: \<open>Warning: '{p}' from '{src}' is not a valid file. Skipping.\<close>;
  \<^item> \<open>Loaded n src\<close>: \<open>Loaded {n} file paths from '{src}'.\<close>;
  \<^item> \<open>NoValidPaths src\<close>: \<open>'{src}' exists but contains no valid file paths.\<close>;
  \<^item> \<open>NothingLoaded\<close>: \<open>No valid file paths could be loaded from either target file.\<close>
\<close>

datatype message =
    ErrorReading string exn
  | WarningInvalid string string
  | Loaded nat string
  | NoValidPaths string
  | NothingLoaded

text \<open>The f-string \<open>f"'{a}' with '{b}'"\<close>.\<close>

definition format_entry :: "string \<Rightarrow> string \<Rightarrow> string" where
  "format_entry a b = [QUOTE] @ a @ [QUOTE] @ '' with '' @ [QUOTE] @ b @ [QUOTE]"

text \<open>The loop of \<open>generate_prompt\<close>. \<open>relative_to\<close> stands outside the \<open>try\<close>: its
  \<open>ValueError\<close> ends the function. Every exception of \<open>open\<close> and \<open>read\<close> is caught.\<close>

fun generate_prompt_loop ::
  "fsys \<Rightarrow> path \<Rightarrow> path list \<Rightarrow> string list \<Rightarrow> message list
     \<Rightarrow> message list \<times> (exn + string list)" where
  "generate_prompt_loop fs target_path [] file_entries out = (out, Inr file_entries)"
| "generate_prompt_loop fs target_path (file_path # files) file_entries out =
     (case relative_to file_path target_path of
        None \<Rightarrow> (out, Inl ValueError)
      | Some rel \<Rightarrow>
          (let relative_path = as_posix rel
           in case read_text fs (str file_path) of
                Inl e \<Rightarrow>
                  generate_prompt_loop fs target_path files file_entries
                    (out @ [ErrorReading (str file_path) e])
              | Inr contents \<Rightarrow>
                  if strip contents = []
                  then generate_prompt_loop fs target_path files file_entries out
                  else (let relative_path_escaped = replace_quote relative_path;
                            contents_escaped = replace_quote contents;
                            entry = format_entry relative_path_escaped contents_escaped
                        in generate_prompt_loop fs target_path files
                             (file_entries @ [entry]) out)))"

text \<open>\<open>generate_prompt(target_folder, files)\<close>: the messages printed, and the prompt
  or the exception raised.\<close>

definition generate_prompt ::
  "fsys \<Rightarrow> string \<Rightarrow> path list \<Rightarrow> message list \<times> (exn + string)" where
  "generate_prompt fs target_folder files =
     (let prompt_lines = [''My codebase includes''];
          target_path = Path target_folder
      in case generate_prompt_loop fs target_path files [] [] of
           (out, Inl e) \<Rightarrow> (out, Inl e)
         | (out, Inr file_entries) \<Rightarrow>
             (let prompt_body = join [CHR '','', LF] file_entries;
                  prompt_lines = prompt_lines @ [prompt_body];
                  prompt_lines = prompt_lines @ [''.'']
              in (out, Inr (join [LF] prompt_lines))))"

text \<open>The loop of \<open>generate_prompt_individual\<close>.\<close>

fun generate_prompt_individual_loop ::
  "fsys \<Rightarrow> path list \<Rightarrow> string list \<Rightarrow> message list \<Rightarrow> message list \<times> string list" where
  "generate_prompt_individual_loop fs [] file_entries out = (out, file_entries)"
| "generate_prompt_individual_loop fs (file_path # files) file_entries out =
     (case read_text fs (str file_path) of
        Inl e \<Rightarrow>
          generate_prompt_individual_loop fs files file_entries
            (out @ [ErrorReading (str file_path) e])
      | Inr contents \<Rightarrow>
          if strip contents = []
          then generate_prompt_individual_loop fs files file_entries out
          else (let file_identifier = str file_path;
                    file_identifier_escaped = replace_quote file_identifier;
                    contents_escaped = replace_quote contents;
                    entry = format_entry file_identifier_escaped contents_escaped
                in generate_prompt_individual_loop fs files (file_entries @ [entry]) out))"

text \<open>\<open>generate_prompt_individual(files)\<close>.\<close>

definition generate_prompt_individual ::
  "fsys \<Rightarrow> path list \<Rightarrow> message list \<times> (exn + string)" where
  "generate_prompt_individual fs files =
     (let prompt_lines = [''My codebase includes'']
      in case generate_prompt_individual_loop fs files [] [] of
           (out, file_entries) \<Rightarrow>
             (let prompt_body = join [CHR '','', LF] file_entries;
                  prompt_lines = prompt_lines @ [prompt_body];
                  prompt_lines = prompt_lines @ [''.'']
              in (out, Inr (join [LF] prompt_lines))))"

section \<open>The individual list loader\<close>

text \<open>The loop over the lines of \<open>target_files.txt\<close>.\<close>

fun target_files_loop ::
  "fsys \<Rightarrow> string list \<Rightarrow> path list \<Rightarrow> message list \<Rightarrow> path list \<times> message list" where
  "target_files_loop fs [] file_paths out = (file_paths, out)"
| "target_files_loop fs (line # lines) file_paths out =
     (let file_path = strip line
      in if file_path \<noteq> []
         then (if isfile fs file_path
               then target_files_loop fs lines (file_paths @ [Path file_path]) out
               else target_files_loop fs lines file_paths
                      (out @ [WarningInvalid file_path TARGET_FILES_FILE]))
         else target_files_loop fs lines file_paths out)"

text \<open>The loop over the lines of \<open>individual_files.sh\<close>.\<close>

fun script_loop ::
  "fsys \<Rightarrow> string list \<Rightarrow> path list \<Rightarrow> message list \<Rightarrow> path list \<times> message list" where
  "script_loop fs [] file_paths out = (file_paths, out)"
| "script_loop fs (line # lines) file_paths out =
     (let line = strip line
      in if startswith line [HASH] \<or> line = []
         then script_loop fs lines file_paths out
         else if isfile fs line
         then script_loop fs lines (file_paths @ [Path line]) out
         else script_loop fs lines file_paths
                (out @ [WarningInvalid line INDIVIDUAL_FILES_SCRIPT]))"

text \<open>\<open>load_individual_files_from_file()\<close>: the messages printed, and the list, \<open>None\<close>
  or the exception raised (none is caught). An exception of the iteration is raised
  after the loop has printed the warnings of the lines before it. \<open>first\<close> is the state
  after the block of \<open>target_files.txt\<close>: an exception, the list returned, or \<open>None\<close>
  when control falls through to the fallback, where \<open>file_paths\<close> is still empty.\<close>

definition load_individual_files_from_file ::
  "fsys \<Rightarrow> message list \<times> (exn + path list option)" where
  "load_individual_files_from_file fs =
     (let file_paths = [];
          first =
            (if exists fs TARGET_FILES_FILE
             then (case iterate_lines fs TARGET_FILES_FILE of
                     Inl e \<Rightarrow> ([], Inl e)
                   | Inr (lines, raised) \<Rightarrow>
                       (case target_files_loop fs lines file_paths [] of
                          (file_paths, out) \<Rightarrow>
                            (case raised of
                               Some e \<Rightarrow> (out, Inl e)
                             | None \<Rightarrow>
                                 if file_paths \<noteq> []
                                 then (out @ [Loaded (length file_paths) TARGET_FILES_FILE],
                                       Inr (Some file_paths))
                                 else (out @ [NoValidPaths TARGET_FILES_FILE], Inr None))))
             else ([], Inr None))
      in case first of
           (out, Inl e) \<Rightarrow> (out, Inl e)
         | (out, Inr (Some file_paths)) \<Rightarrow> (out, Inr (Some file_paths))
         | (out, Inr None) \<Rightarrow>
             (if exists fs INDIVIDUAL_FILES_SCRIPT
              then (case iterate_lines fs INDIVIDUAL_FILES_SCRIPT of
                      Inl e \<Rightarrow> (out, Inl e)
                    | Inr (lines, raised) \<Rightarrow>
                        (case script_loop fs lines file_paths out of
                           (file_paths, out) \<Rightarrow>
                             (case raised of
                                Some e \<Rightarrow> (out, Inl e)
                              | None \<Rightarrow>
                                  if file_paths \<noteq> []
                                  then (out @ [Loaded (length file_paths) INDIVIDUAL_FILES_SCRIPT],
                                        Inr (Some file_paths))
                                  else (out @ [NoValidPaths INDIVIDUAL_FILES_SCRIPT,
                                               NothingLoaded],
                                        Inr None))))
              else (out @ [NothingLoaded], Inr None)))"

section \<open>The prompt document of the specification\<close>

text \<open>
  The specification describes the serializer as \<open>render(entries)\<close> over the entries
  that survive: the files that can be read and whose content is not blank, each with
  its display identifier and its content. These definitions follow the specification;
  the theorems below compare them with the two functions of the program.
\<close>

definition kept :: "fsys \<Rightarrow> path \<Rightarrow> bool" where
  "kept fs f =
     (case read_text fs (str f) of Inl e \<Rightarrow> False | Inr contents \<Rightarrow> strip contents \<noteq> [])"

definition blank :: "fsys \<Rightarrow> path \<Rightarrow> bool" where
  "blank fs f =
     (case read_text fs (str f) of Inl e \<Rightarrow> False | Inr contents \<Rightarrow> strip contents = [])"

definition contents_of :: "fsys \<Rightarrow> path \<Rightarrow> string" where
  "contents_of fs f = (case read_text fs (str f) of Inl e \<Rightarrow> [] | Inr contents \<Rightarrow> contents)"

definition read_errors :: "fsys \<Rightarrow> path list \<Rightarrow> message list" where
  "read_errors fs files =
     concat (map (\<lambda>f. case read_text fs (str f) of
                         Inl e \<Rightarrow> [ErrorReading (str f) e] | Inr contents \<Rightarrow> []) files)"

text \<open>The display identifier of bulk mode: the path relative to the scan root.\<close>

definition bulk_id :: "path \<Rightarrow> path \<Rightarrow> string" where
  "bulk_id target_path f =
     (case relative_to f target_path of None \<Rightarrow> [] | Some rel \<Rightarrow> as_posix rel)"

definition surviving ::
  "fsys \<Rightarrow> (path \<Rightarrow> string) \<Rightarrow> path list \<Rightarrow> (string \<times> string) list" where
  "surviving fs ident files = map (\<lambda>f. (ident f, contents_of fs f)) (filter (kept fs) files)"

text \<open>An entry \<open>'<id>' with '<content>'\<close>, every quote of the identifier and of the
  content prefixed by a backslash.\<close>

definition escape :: "string \<Rightarrow> string" where
  "escape s = concat (map (\<lambda>c. if c = QUOTE then [BACKSLASH, QUOTE] else [c]) s)"

definition render_entry :: "string \<times> string \<Rightarrow> string" where
  "render_entry e =
     [QUOTE] @ escape (fst e) @ [QUOTE] @ '' with '' @ [QUOTE] @ escape (snd e) @ [QUOTE]"

definition render :: "(string \<times> string) list \<Rightarrow> string" where
  "render entries =
     ''My codebase includes'' @ [LF] @ join [CHR '','', LF] (map render_entry entries)
       @ [LF] @ ''.''"

text \<open>
  The ignore patterns that \<open>load_ignore_paths\<close> can return: stripped, not empty, and
  without a line break.
\<close>

definition pattern_ok :: "string \<Rightarrow> bool" where
  "pattern_ok p = (p \<noteq> [] \<and> \<not> isspace (hd p) \<and> \<not> isspace (last p) \<and> LF \<notin> set p \<and> CR \<notin> set p)"

text \<open>
  The two sources of the individual list loader, as the specification describes them.
  The lines are stripped; source A considers the lines that are not blank, source B
  also leaves out the lines that start with \<open>#\<close>. Of the lines considered, those
  that name an existing regular file are the valid paths, and each of the others gets
  a warning. A source is its warnings together with its valid paths, or with the
  exception when it exists and cannot be opened or decoded; a source that is absent
  has no warning and no path.
\<close>

definition candidates_A :: "string list \<Rightarrow> string list" where
  "candidates_A lines = filter (\<lambda>l. l \<noteq> []) (map strip lines)"

definition candidates_B :: "string list \<Rightarrow> string list" where
  "candidates_B lines = filter (\<lambda>l. \<not> startswith l [HASH] \<and> l \<noteq> []) (map strip lines)"

definition valid_paths :: "fsys \<Rightarrow> string list \<Rightarrow> path list" where
  "valid_paths fs ls = map Path (filter (isfile fs) ls)"

definition warnings :: "fsys \<Rightarrow> string \<Rightarrow> string list \<Rightarrow> message list" where
  "warnings fs src ls = map (\<lambda>l. WarningInvalid l src) (filter (\<lambda>l. \<not> isfile fs l) ls)"

definition source ::
  "fsys \<Rightarrow> string \<Rightarrow> (string list \<Rightarrow> string list) \<Rightarrow> message list \<times> (exn + path list)" where
  "source fs name candidates =
     (if exists fs name
      then (case iterate_lines fs name of
              Inl e \<Rightarrow> ([], Inl e)
            | Inr (lines, raised) \<Rightarrow>
                (warnings fs name (candidates lines),
                 case raised of
                   Some e \<Rightarrow> Inl e
                 | None \<Rightarrow> Inr (valid_paths fs (candidates lines))))
      else ([], Inr []))"

definition source_A :: "fsys \<Rightarrow> message list \<times> (exn + path list)" where
  "source_A fs = source fs TARGET_FILES_FILE candidates_A"

definition source_B :: "fsys \<Rightarrow> message list \<times> (exn + path list)" where
  "source_B fs = source fs INDIVIDUAL_FILES_SCRIPT candidates_B"

section \<open>Example file systems\<close>

text \<open>A working directory that is resolved to \<open>/repo\<close>, with a file \<open>a.txt\<close> that
  reads \<open>hello\<close> and an empty file \<open>b.txt\<close>.\<close>

definition demo_fs :: fsys where
  "demo_fs =
     \<lparr>node = [''a.txt'' \<mapsto> Regular True True (Text ''hello''),
              ''b.txt'' \<mapsto> Regular True True (Text [])],
      may_create = (\<lambda>_. True),
      resolve = (\<lambda>p. if anchor p = [] then PosixPath ''/'' (''repo'' # names p) else p),
      rglob = (\<lambda>_. [Path ''a.txt'', Path ''b.txt''])\<rparr>"

text \<open>A directory with a file of whitespace only, a file whose text is \<open>It's\<close>, a file
  that may not be read, and a file that reads \<open>hello\<close>.\<close>

definition sample_fs :: fsys where
  "sample_fs =
     \<lparr>node = [''ws.txt'' \<mapsto> Regular True True (Text [CHR '' '', CHR '' '', CHR '' '', LF, CHR 0x09]),
              ''its.txt'' \<mapsto> Regular True True (Text [CHR ''I'', CHR ''t'', QUOTE, CHR ''s'']),
              ''locked.txt'' \<mapsto> Regular False True (Text ''secret''),
              ''a.txt'' \<mapsto> Regular True True (Text ''hello'')],
      may_create = (\<lambda>_. True),
      resolve = (\<lambda>p. p),
      rglob = (\<lambda>_. [])\<rparr>"

text \<open>File systems for the ignore-set store (before and after a save) and for the
  individual list loader (a primary list with a missing path, a blank line and a valid
  path; and a primary list without a valid path, with a fallback script).\<close>

definition ignore_fs :: fsys where
  "ignore_fs =
     \<lparr>node = [IGNORE_FILE \<mapsto> Regular True True
                 (Text ('' src '' @ [CR, LF, LF] @ ''build'' @ [LF] @ ''src''))],
      may_create = (\<lambda>_. True),
      resolve = (\<lambda>p. p),
      rglob = (\<lambda>_. [])\<rparr>"

definition ignore_fs_saved :: fsys where
  "ignore_fs_saved =
     ignore_fs\<lparr>node := (node ignore_fs)(IGNORE_FILE \<mapsto>
        Regular True True (Text (''build'' @ [LF] @ ''src'' @ [LF])))\<rparr>"

definition loader_fs :: fsys where
  "loader_fs =
     \<lparr>node = [TARGET_FILES_FILE \<mapsto> Regular True True
                 (Text (''missing.txt'' @ [LF, LF] @ '' a.txt '' @ [LF])),
              INDIVIDUAL_FILES_SCRIPT \<mapsto> Regular True True (Text (''b.txt'' @ [LF])),
              ''a.txt'' \<mapsto> Regular True True (Text ''hello''),
              ''b.txt'' \<mapsto> Regular True True (Text ''world'')],
      may_create = (\<lambda>_. True),
      resolve = (\<lambda>p. p),
      rglob = (\<lambda>_. [])\<rparr>"

definition fallback_fs :: fsys where
  "fallback_fs =
     \<lparr>node = [TARGET_FILES_FILE \<mapsto> Regular True True (Text (''missing.txt'' @ [LF])),
              INDIVIDUAL_FILES_SCRIPT \<mapsto> Regular True True
                 (Text (''#!/bin/bash'' @ [LF] @ ''# paths'' @ [LF, LF] @ ''b.txt'' @ [LF]
                        @ ''gone.txt'' @ [LF])),
              ''b.txt'' \<mapsto> Regular True True (Text ''world'')],
      may_create = (\<lambda>_. True),
      resolve = (\<lambda>p. p),
      rglob = (\<lambda>_. [])\<rparr>"

text \<open>A root \<open>/repo\<close> that is also the working directory: each file has its absolute
  name and its name relative to the root. And a primary list whose bytes stop decoding
  in its third line.\<close>

definition repo_fs :: fsys where
  "repo_fs =
     \<lparr>node = [''/repo/a.txt'' \<mapsto> Regular True True (Text ''hello''),
              ''a.txt'' \<mapsto> Regular True True (Text ''hello''),
              ''/repo/b.txt'' \<mapsto> Regular True True (Text []),
              ''b.txt'' \<mapsto> Regular True True (Text []),
              ''/repo/src/c.txt'' \<mapsto> Regular False True (Text ''secret''),
              ''src/c.txt'' \<mapsto> Regular False True (Text ''secret'')],
      may_create = (\<lambda>_. True),
      resolve = (\<lambda>p. if anchor p = [] then PosixPath ''/'' (''repo'' # names p) else p),
      rglob = (\<lambda>_. [Path ''/repo/a.txt'', Path ''/repo/b.txt'', Path ''/repo/src/c.txt''])\<rparr>"

definition garbled_fs :: fsys where
  "garbled_fs =
     \<lparr>node = [TARGET_FILES_FILE \<mapsto> Regular True True
                 (Undecodable (''missing.txt'' @ [LF] @ ''a.txt'' @ [LF] @ ''b.t'')),
              ''a.txt'' \<mapsto> Regular True True (Text ''hello'')],
      may_create = (\<lambda>_. True),
      resolve = (\<lambda>p. p),
      rglob = (\<lambda>_. [])\<rparr>"

section \<open>The path filter\<close>

lemma isabs_empty: "\<not> isabs []"
  by (simp add: isabs_def startswith_def)

text \<open>
  Claim C1. Ignore matching is plain prefix matching on strings. For a file under the
  root, \<open>should_ignore\<close> is true exactly when some pattern matches, where a relative
  pattern matches exactly when it is a string prefix of the root-relative POSIX path of
  the file; in particular a lone relative pattern \<open>P\<close> ignores the file exactly when
  \<open>P\<close> is such a prefix. Path segments play no part.
\<close>

theorem should_ignore_prefix:
  assumes "relative_to file_path root = Some rel"
  shows "(should_ignore fs file_path root ignore_set \<longleftrightarrow>
            (\<exists>P\<in>ignore_set. if isabs P then prefix P (str (resolve fs file_path))
                               else prefix P (as_posix rel)))
       \<and> (\<forall>P. \<not> isabs P \<longrightarrow>
            (should_ignore fs file_path root {P} \<longleftrightarrow> prefix P (as_posix rel)))"
  using assms by (simp add: should_ignore_def startswith_def)

lemma build_out_rel:
  "relative_to (Path ''/repo/build/out.txt'') (Path ''/repo'')
     = Some (PosixPath [] [''build'', ''out.txt''])"
  by (simp add: relative_to_def Path_def splitroot_def)

lemma build2_out_rel:
  "relative_to (Path ''/repo/build2/out.txt'') (Path ''/repo'')
     = Some (PosixPath [] [''build2'', ''out.txt''])"
  by (simp add: relative_to_def Path_def splitroot_def)

lemma src_build_out_rel:
  "relative_to (Path ''/repo/src/build/out.txt'') (Path ''/repo'')
     = Some (PosixPath [] [''src'', ''build'', ''out.txt''])"
  by (simp add: relative_to_def Path_def splitroot_def)

text \<open>The pattern \<open>build\<close> ignores \<open>build/out.txt\<close> and \<open>build2/out.txt\<close>, and does
  not ignore \<open>src/build/out.txt\<close>.\<close>

theorem should_ignore_prefix_witness:
  "should_ignore demo_fs (Path ''/repo/build/out.txt'') (Path ''/repo'') {''build''}
   \<and> should_ignore demo_fs (Path ''/repo/build2/out.txt'') (Path ''/repo'') {''build''}
   \<and> \<not> should_ignore demo_fs (Path ''/repo/src/build/out.txt'') (Path ''/repo'') {''build''}"
  using should_ignore_prefix [OF build_out_rel, of demo_fs "{''build''}"]
        should_ignore_prefix [OF build2_out_rel, of demo_fs "{''build''}"]
        should_ignore_prefix [OF src_build_out_rel, of demo_fs "{''build''}"]
  by (simp add: isabs_def startswith_def as_posix_def str_def)

text \<open>
  Claim C4. A file whose path is not under the root (\<open>relative_to\<close> raises) is
  ignored, whatever the pattern set.
\<close>

theorem should_ignore_outside_root:
  assumes "relative_to file_path root = None"
  shows "should_ignore fs file_path root ignore_set"
  using assms by (simp add: should_ignore_def)

theorem should_ignore_outside_root_witness:
  "relative_to (Path ''/etc/passwd'') (Path ''/repo'') = None
   \<and> should_ignore demo_fs (Path ''/etc/passwd'') (Path ''/repo'') {}
   \<and> should_ignore demo_fs (Path ''/etc/passwd'') (Path ''/repo'') {''src''}"
proof -
  have out: "relative_to (Path ''/etc/passwd'') (Path ''/repo'') = None"
    by (simp add: relative_to_def Path_def splitroot_def)
  show ?thesis
    using out should_ignore_outside_root [OF out, of demo_fs "{}"]
      should_ignore_outside_root [OF out, of demo_fs "{''src''}"]
    by simp
qed

text \<open>
  Claim C10. When the pattern set contains the empty string, every file is ignored
  (the empty string is relative and a prefix of every path), and the bulk scan
  returns no file.
\<close>

theorem empty_pattern_ignores_all:
  assumes "[] \<in> ignore_set"
  shows "should_ignore fs file_path root ignore_set
       \<and> get_all_files fs target_folder ignore_set = []"
proof -
  have all: "should_ignore fs f r ignore_set" for f r
  proof (cases "relative_to f r")
    case None
    then show ?thesis by (simp add: should_ignore_def)
  next
    case (Some rel)
    have "\<not> isabs [] \<and> startswith (as_posix rel) []"
      by (simp add: isabs_empty startswith_def)
    with assms Some show ?thesis
      unfolding should_ignore_def Let_def by (auto intro!: bexI [of _ "[]"])
  qed
  then show ?thesis by (simp add: get_all_files_def)
qed

text \<open>With the empty pattern the scan of the example directory is empty; without it
  the scan finds both files.\<close>

theorem empty_pattern_ignores_all_witness:
  "should_ignore demo_fs (Path ''a.txt'') (Path ''.'') {[]}
   \<and> get_all_files demo_fs ''.'' {[]} = []
   \<and> get_all_files demo_fs ''.'' {} = [Path ''a.txt'', Path ''b.txt'']"
proof -
  have "get_all_files demo_fs ''.'' {} = [Path ''a.txt'', Path ''b.txt'']"
    by (simp add: get_all_files_def should_ignore_def demo_fs_def isfile_def str_def
        relative_to_def Path_def splitroot_def)
  then show ?thesis
    using empty_pattern_ignores_all [of "{[]}" demo_fs "Path ''a.txt''" "Path ''.''" "''.''"]
    by simp
qed

section \<open>The serializer: what the two loops compute\<close>

lemma replace_quote_escape: "replace_quote s = escape s"
  by (induction s) (simp_all add: escape_def)

lemma format_entry_render_entry:
  "format_entry (replace_quote i) (replace_quote c) = render_entry (i, c)"
  by (simp add: format_entry_def render_entry_def replace_quote_escape)

lemma individual_loop_eq:
  "generate_prompt_individual_loop fs files file_entries out =
     (out @ read_errors fs files,
      file_entries @ map render_entry (surviving fs str files))"
proof (induction files arbitrary: file_entries out)
  case Nil
  then show ?case by (simp add: read_errors_def surviving_def)
next
  case (Cons f files)
  show ?case
  proof (cases "read_text fs (str f)")
    case (Inl e)
    then show ?thesis
      by (simp add: Cons.IH read_errors_def surviving_def kept_def)
  next
    case (Inr contents)
    then show ?thesis
      by (simp add: Cons.IH read_errors_def surviving_def kept_def contents_of_def
          format_entry_render_entry)
  qed
qed

lemma bulk_loop_eq:
  assumes "\<forall>f\<in>set files. relative_to f target_path \<noteq> None"
  shows "generate_prompt_loop fs target_path files file_entries out =
     (out @ read_errors fs files,
      Inr (file_entries @ map render_entry (surviving fs (bulk_id target_path) files)))"
  using assms
proof (induction files arbitrary: file_entries out)
  case Nil
  then show ?case by (simp add: read_errors_def surviving_def)
next
  case (Cons f files)
  then obtain rel where rel: "relative_to f target_path = Some rel" by auto
  from Cons.prems have rest: "\<forall>f\<in>set files. relative_to f target_path \<noteq> None" by simp
  show ?case
  proof (cases "read_text fs (str f)")
    case (Inl e)
    then show ?thesis
      by (simp add: rel Cons.IH [OF rest] read_errors_def surviving_def kept_def)
  next
    case (Inr contents)
    then show ?thesis
      by (simp add: rel Cons.IH [OF rest] read_errors_def surviving_def kept_def
          contents_of_def format_entry_render_entry bulk_id_def)
  qed
qed

lemma individual_eq:
  "generate_prompt_individual fs files =
     (read_errors fs files, Inr (render (surviving fs str files)))"
  by (simp add: generate_prompt_individual_def individual_loop_eq render_def)

lemma bulk_eq:
  assumes "\<forall>f\<in>set files. relative_to f (Path target_folder) \<noteq> None"
  shows "generate_prompt fs target_folder files =
     (read_errors fs files, Inr (render (surviving fs (bulk_id (Path target_folder)) files)))"
  by (simp add: generate_prompt_def bulk_loop_eq [OF assms] render_def)

section \<open>The serializer: the claims\<close>

lemma read_a: "read_text demo_fs ''a.txt'' = Inr ''hello''"
  by (simp add: read_text_def demo_fs_def)
lemma read_b: "read_text demo_fs ''b.txt'' = Inr []"
  by (simp add: read_text_def demo_fs_def)
lemma strip_hello: "strip ''hello'' = ''hello''"
  by (simp add: strip_def lstrip_def rstrip_def isspace_def)
lemma strip_Nil: "strip [] = []"
  by (simp add: strip_def lstrip_def rstrip_def)
lemma str_a: "str (Path ''a.txt'') = ''a.txt''"
  by (simp add: str_def Path_def splitroot_def)
lemma str_b: "str (Path ''b.txt'') = ''b.txt''"
  by (simp add: str_def Path_def splitroot_def)
lemma rel_a: "relative_to (Path ''a.txt'') (Path ''.'') = Some (Path ''a.txt'')"
  by (simp add: relative_to_def Path_def splitroot_def)
lemma rel_b: "relative_to (Path ''b.txt'') (Path ''.'') = Some (Path ''b.txt'')"
  by (simp add: relative_to_def Path_def splitroot_def)

text \<open>
  Claim C2. The prompt is the header line \<open>My codebase includes\<close>, then the entries
  of the surviving files (each \<open>'<id>' with '<content>'\<close>) joined by a comma and a
  newline, then a line that is a lone \<open>.\<close>; with no file, and with no surviving
  entry, the body is empty and the prompt is the header, an empty line and the dot.
  In bulk mode this holds when every file is under the root (otherwise \<open>relative_to\<close>
  raises before anything is rendered).
\<close>

theorem prompt_layout:
  "snd (generate_prompt_individual fs files) =
     Inr (''My codebase includes'' @ [LF]
          @ join [CHR '','', LF] (map render_entry (surviving fs str files)) @ [LF] @ ''.'')
   \<and> ((\<forall>f\<in>set files. relative_to f (Path target_folder) \<noteq> None) \<longrightarrow>
        snd (generate_prompt fs target_folder files) =
          Inr (''My codebase includes'' @ [LF]
               @ join [CHR '','', LF]
                   (map render_entry (surviving fs (bulk_id (Path target_folder)) files))
               @ [LF] @ ''.''))
   \<and> snd (generate_prompt_individual fs []) = Inr (''My codebase includes'' @ [LF, LF] @ ''.'')
   \<and> snd (generate_prompt fs target_folder []) = Inr (''My codebase includes'' @ [LF, LF] @ ''.'')
   \<and> (surviving fs str files = [] \<longrightarrow>
        snd (generate_prompt_individual fs files) =
          Inr (''My codebase includes'' @ [LF, LF] @ ''.''))"
proof -
  have "snd (generate_prompt fs target_folder []) = Inr (''My codebase includes'' @ [LF, LF] @ ''.'')"
    by (simp add: generate_prompt_def)
  moreover have "snd (generate_prompt_individual fs []) = Inr (''My codebase includes'' @ [LF, LF] @ ''.'')"
    by (simp add: generate_prompt_individual_def)
  ultimately show ?thesis
    by (simp add: individual_eq bulk_eq render_def)
qed

text \<open>The scenario of the specification: \<open>a.txt\<close> reads \<open>hello\<close> and \<open>b.txt\<close> is
  empty; only \<open>a.txt\<close> appears.\<close>

theorem prompt_layout_witness:
  "snd (generate_prompt demo_fs ''.'' [Path ''a.txt'', Path ''b.txt'']) =
     Inr (''My codebase includes'' @ [LF] @ [QUOTE] @ ''a.txt'' @ [QUOTE] @ '' with ''
          @ [QUOTE] @ ''hello'' @ [QUOTE] @ [LF] @ ''.'')
   \<and> snd (generate_prompt_individual demo_fs [Path ''a.txt'', Path ''b.txt'']) =
     Inr (''My codebase includes'' @ [LF] @ [QUOTE] @ ''a.txt'' @ [QUOTE] @ '' with ''
          @ [QUOTE] @ ''hello'' @ [QUOTE] @ [LF] @ ''.'')"
  using prompt_layout [of demo_fs "[Path ''a.txt'', Path ''b.txt'']" "''.''"]
  by (simp add: surviving_def kept_def contents_of_def bulk_id_def render_entry_def escape_def
      read_a read_b strip_hello strip_Nil str_a str_b rel_a rel_b as_posix_def)

lemma filter_not_blank_kept: "filter (kept fs) (filter (\<lambda>f. \<not> blank fs f) files) = filter (kept fs) files"
  by (induction files) (auto simp: kept_def blank_def split: sum.splits)

lemma surviving_drop_blank:
  "surviving fs ident (filter (\<lambda>f. \<not> blank fs f) files) = surviving fs ident files"
  unfolding surviving_def by (subst filter_not_blank_kept) (rule refl)

lemma read_errors_drop_blank:
  "read_errors fs (filter (\<lambda>f. \<not> blank fs f) files) = read_errors fs files"
  by (induction files) (auto simp: read_errors_def blank_def split: sum.splits)

lemma surviving_all_blank:
  "\<forall>f\<in>set files. blank fs f \<Longrightarrow> surviving fs ident files = []"
  by (induction files) (auto simp: surviving_def kept_def blank_def split: sum.splits)

lemma read_errors_all_blank:
  "\<forall>f\<in>set files. blank fs f \<Longrightarrow> read_errors fs files = []"
  by (induction files) (auto simp: read_errors_def blank_def split: sum.splits)

lemma surviving_not_blank:
  "e \<in> set (surviving fs ident files) \<Longrightarrow> strip (snd e) \<noteq> []"
  by (auto simp: surviving_def kept_def contents_of_def split: sum.splits)

text \<open>
  Claim C3. In both modes no entry is rendered for a file whose content is empty after
  stripping: removing the blank files from the input changes neither the prompt nor
  the messages, the entries the loops build are those of the surviving files, and
  every surviving entry has a content that is not blank.
\<close>

theorem blank_files_excluded:
  "generate_prompt_individual fs files =
     generate_prompt_individual fs (filter (\<lambda>f. \<not> blank fs f) files)
   \<and> ((\<forall>f\<in>set files. relative_to f (Path target_folder) \<noteq> None) \<longrightarrow>
        generate_prompt fs target_folder files =
          generate_prompt fs target_folder (filter (\<lambda>f. \<not> blank fs f) files))
   \<and> snd (generate_prompt_individual_loop fs files [] []) =
        map render_entry (surviving fs str files)
   \<and> ((\<forall>f\<in>set files. relative_to f (Path target_folder) \<noteq> None) \<longrightarrow>
        snd (generate_prompt_loop fs (Path target_folder) files [] []) =
          Inr (map render_entry (surviving fs (bulk_id (Path target_folder)) files)))
   \<and> (\<forall>ident. \<forall>e\<in>set (surviving fs ident files). strip (snd e) \<noteq> [])"
proof -
  let ?keep = "filter (\<lambda>f. \<not> blank fs f) files"
  have ind: "generate_prompt_individual fs files = generate_prompt_individual fs ?keep"
    by (simp add: individual_eq surviving_drop_blank read_errors_drop_blank)
  have bulk: "generate_prompt fs target_folder files = generate_prompt fs target_folder ?keep"
    if under: "\<forall>f\<in>set files. relative_to f (Path target_folder) \<noteq> None"
  proof -
    from under have "\<forall>f\<in>set ?keep. relative_to f (Path target_folder) \<noteq> None" by simp
    then show ?thesis
      by (simp add: bulk_eq [OF under] bulk_eq surviving_drop_blank read_errors_drop_blank)
  qed
  have loop: "snd (generate_prompt_individual_loop fs files [] []) =
        map render_entry (surviving fs str files)"
    by (simp add: individual_loop_eq)
  have bloop: "snd (generate_prompt_loop fs (Path target_folder) files [] []) =
          Inr (map render_entry (surviving fs (bulk_id (Path target_folder)) files))"
    if under: "\<forall>f\<in>set files. relative_to f (Path target_folder) \<noteq> None"
    by (simp add: bulk_loop_eq [OF under])
  have nb: "\<forall>ident. \<forall>e\<in>set (surviving fs ident files). strip (snd e) \<noteq> []"
    using surviving_not_blank by blast
  from ind bulk loop bloop nb show ?thesis by blast
qed

lemma read_ws: "read_text sample_fs ''ws.txt'' = Inr [CHR '' '', CHR '' '', CHR '' '', LF, CHR 0x09]"
  by (simp add: read_text_def sample_fs_def)
lemma strip_ws: "strip [CHR '' '', CHR '' '', CHR '' '', LF, CHR 0x09] = []"
  by (simp add: strip_def lstrip_def rstrip_def isspace_def)
lemma str_ws: "str (Path ''ws.txt'') = ''ws.txt''"
  by (simp add: str_def Path_def splitroot_def)
lemma rel_ws: "relative_to (Path ''ws.txt'') (Path ''.'') = Some (Path ''ws.txt'')"
  by (simp add: relative_to_def Path_def splitroot_def)
lemma blank_ws: "blank sample_fs (Path ''ws.txt'')"
  by (simp add: blank_def str_ws read_ws strip_ws)

text \<open>A file that holds three spaces, a newline and a tab yields no entry.\<close>

theorem blank_files_excluded_witness:
  "generate_prompt_individual sample_fs [Path ''ws.txt''] =
     ([], Inr (''My codebase includes'' @ [LF, LF] @ ''.''))
   \<and> generate_prompt sample_fs ''.'' [Path ''ws.txt''] =
     ([], Inr (''My codebase includes'' @ [LF, LF] @ ''.''))
   \<and> snd (generate_prompt_individual_loop sample_fs [Path ''ws.txt''] [] []) = []
   \<and> snd (generate_prompt_loop sample_fs (Path ''.'') [Path ''ws.txt''] [] []) = Inr []"
proof -
  have e1: "generate_prompt_individual sample_fs [] = ([], Inr (''My codebase includes'' @ [LF, LF] @ ''.''))"
    by (simp add: generate_prompt_individual_def)
  have e2: "generate_prompt sample_fs ''.'' [] = ([], Inr (''My codebase includes'' @ [LF, LF] @ ''.''))"
    by (simp add: generate_prompt_def)
  have sv: "surviving sample_fs ident [Path ''ws.txt''] = []" for ident
    using blank_ws by (simp add: surviving_def kept_def blank_def split: sum.splits)
  show ?thesis
    using blank_files_excluded [of sample_fs "[Path ''ws.txt'']" "''.''"] blank_ws rel_ws e1 e2 sv
    by simp
qed

lemma escape_quote_preceded:
  "i < length (escape s) \<Longrightarrow> escape s ! i = QUOTE \<Longrightarrow> 0 < i \<and> escape s ! (i - 1) = BACKSLASH"
proof (induction s arbitrary: i)
  case Nil
  then show ?case by (simp add: escape_def)
next
  case (Cons c cs)
  have step: "escape (c # cs) = (if c = QUOTE then [BACKSLASH, QUOTE] else [c]) @ escape cs"
    by (simp add: escape_def)
  show ?case
  proof (cases "c = QUOTE")
    case True
    with Cons.prems step show ?thesis
      using Cons.IH [of "i - 2"]
      by (cases i; cases "i - 1") (auto simp: nth_Cons' split: if_splits)
  next
    case False
    with Cons.prems step show ?thesis
      using Cons.IH [of "i - 1"]
      by (cases i; cases "i - 1") (auto simp: nth_Cons' split: if_splits)
  qed
qed

text \<open>
  Claim C5. The replacement applied to the identifier and to the content of every
  entry, in both modes, puts a backslash before each quote and changes nothing else;
  so every quote of the escaped text stands right after a backslash.
\<close>

theorem quotes_escaped:
  "replace_quote s = concat (map (\<lambda>c. if c = QUOTE then [BACKSLASH, QUOTE] else [c]) s)
   \<and> (\<forall>i < length (replace_quote s).
        replace_quote s ! i = QUOTE \<longrightarrow> 0 < i \<and> replace_quote s ! (i - 1) = BACKSLASH)
   \<and> snd (generate_prompt_individual_loop fs files [] []) =
        map (\<lambda>f. [QUOTE] @ replace_quote (str f) @ [QUOTE] @ '' with ''
                    @ [QUOTE] @ replace_quote (contents_of fs f) @ [QUOTE])
          (filter (kept fs) files)
   \<and> ((\<forall>f\<in>set files. relative_to f target_path \<noteq> None) \<longrightarrow>
        snd (generate_prompt_loop fs target_path files [] []) =
          Inr (map (\<lambda>f. [QUOTE] @ replace_quote (bulk_id target_path f) @ [QUOTE] @ '' with ''
                          @ [QUOTE] @ replace_quote (contents_of fs f) @ [QUOTE])
                 (filter (kept fs) files)))"
proof -
  have a: "replace_quote s = concat (map (\<lambda>c. if c = QUOTE then [BACKSLASH, QUOTE] else [c]) s)"
    by (simp add: replace_quote_escape escape_def)
  have b: "\<forall>i < length (replace_quote s).
        replace_quote s ! i = QUOTE \<longrightarrow> 0 < i \<and> replace_quote s ! (i - 1) = BACKSLASH"
    using escape_quote_preceded [of _ s] by (simp add: replace_quote_escape)
  have c: "snd (generate_prompt_individual_loop fs files [] []) =
        map (\<lambda>f. [QUOTE] @ replace_quote (str f) @ [QUOTE] @ '' with ''
                    @ [QUOTE] @ replace_quote (contents_of fs f) @ [QUOTE])
          (filter (kept fs) files)"
    by (simp add: individual_loop_eq surviving_def render_entry_def replace_quote_escape o_def)
  have d: "snd (generate_prompt_loop fs target_path files [] []) =
          Inr (map (\<lambda>f. [QUOTE] @ replace_quote (bulk_id target_path f) @ [QUOTE] @ '' with ''
                          @ [QUOTE] @ replace_quote (contents_of fs f) @ [QUOTE])
                 (filter (kept fs) files))"
    if under: "\<forall>f\<in>set files. relative_to f target_path \<noteq> None"
    by (simp add: bulk_loop_eq [OF under] surviving_def render_entry_def replace_quote_escape o_def)
  from a b c d show ?thesis by blast
qed

lemma read_its: "read_text sample_fs ''its.txt'' = Inr [CHR ''I'', CHR ''t'', QUOTE, CHR ''s'']"
  by (simp add: read_text_def sample_fs_def)
lemma strip_its: "strip [CHR ''I'', CHR ''t'', QUOTE, CHR ''s''] = [CHR ''I'', CHR ''t'', QUOTE, CHR ''s'']"
  by (simp add: strip_def lstrip_def rstrip_def isspace_def)
lemma str_its: "str (Path ''its.txt'') = ''its.txt''"
  by (simp add: str_def Path_def splitroot_def)
lemma rel_its: "relative_to (Path ''its.txt'') (Path ''.'') = Some (Path ''its.txt'')"
  by (simp add: relative_to_def Path_def splitroot_def)

text \<open>The content \<open>It's\<close> is rendered as \<open>It\'s\<close>.\<close>

theorem quotes_escaped_witness:
  "replace_quote [CHR ''I'', CHR ''t'', QUOTE, CHR ''s''] = [CHR ''I'', CHR ''t'', BACKSLASH, QUOTE, CHR ''s'']
   \<and> snd (generate_prompt_individual_loop sample_fs [Path ''its.txt''] [] []) =
       [[QUOTE] @ ''its.txt'' @ [QUOTE] @ '' with '' @ [QUOTE]
          @ [CHR ''I'', CHR ''t'', BACKSLASH, QUOTE, CHR ''s''] @ [QUOTE]]
   \<and> snd (generate_prompt_loop sample_fs (Path ''.'') [Path ''its.txt''] [] []) =
       Inr [[QUOTE] @ ''its.txt'' @ [QUOTE] @ '' with '' @ [QUOTE]
          @ [CHR ''I'', CHR ''t'', BACKSLASH, QUOTE, CHR ''s''] @ [QUOTE]]"
  using quotes_escaped [of "[CHR ''I'', CHR ''t'', QUOTE, CHR ''s'']" sample_fs "[Path ''its.txt'']" "Path ''.''"]
  by (simp add: kept_def contents_of_def bulk_id_def read_its strip_its str_its rel_its as_posix_def)










lemma surviving_two_lists:
  assumes "list_all2 (\<lambda>b i. ident b = ident' i \<and> read_text fs (str b) = read_text fs (str i)) bs is"
  shows "surviving fs ident bs = surviving fs ident' is"
  using assms
  by (induction bs "is" rule: list_all2_induct)
    (auto simp: surviving_def kept_def contents_of_def)

lemma read_errors_two_lists:
  assumes "list_all2 (\<lambda>b i. read_text fs (str b) = read_text fs (str i)) bs is"
  shows "list_all2 (\<lambda>m n. \<exists>p q e. m = ErrorReading p e \<and> n = ErrorReading q e)
           (read_errors fs bs) (read_errors fs is)"
  using assms
  by (induction bs "is" rule: list_all2_induct)
    (auto simp: read_errors_def split: sum.splits)

text \<open>
  Claim C9. The two serializers agree. When the files handed to bulk mode and the
  paths handed to individual mode correspond one to one, the root-relative POSIX path
  of each file being the string of the path supplied to individual mode and both
  names reading the same file, the two functions return the same prompt, and they
  report the same read failures in the same order (under the name each mode was
  given). When one list serves both modes (the root is the current directory) the
  messages are the same as well.
\<close>

theorem variants_agree:
  "(list_all2 (\<lambda>b i. (\<exists>rel. relative_to b (Path target_folder) = Some rel \<and> as_posix rel = str i)
                      \<and> read_text fs (str b) = read_text fs (str i))
       bulk_files individual_files \<longrightarrow>
      snd (generate_prompt fs target_folder bulk_files) =
        snd (generate_prompt_individual fs individual_files)
    \<and> list_all2 (\<lambda>m n. \<exists>p q e. m = ErrorReading p e \<and> n = ErrorReading q e)
        (fst (generate_prompt fs target_folder bulk_files))
        (fst (generate_prompt_individual fs individual_files)))
   \<and> ((\<forall>f\<in>set files. \<exists>rel. relative_to f (Path target_folder) = Some rel
                               \<and> as_posix rel = str f) \<longrightarrow>
      generate_prompt fs target_folder files = generate_prompt_individual fs files)"
proof -
  have two: "snd (generate_prompt fs target_folder bulk_files) =
        snd (generate_prompt_individual fs individual_files)
    \<and> list_all2 (\<lambda>m n. \<exists>p q e. m = ErrorReading p e \<and> n = ErrorReading q e)
        (fst (generate_prompt fs target_folder bulk_files))
        (fst (generate_prompt_individual fs individual_files))"
    if h: "list_all2 (\<lambda>b i. (\<exists>rel. relative_to b (Path target_folder) = Some rel \<and> as_posix rel = str i)
                      \<and> read_text fs (str b) = read_text fs (str i))
       bulk_files individual_files"
  proof -
    from h have under: "\<forall>f\<in>set bulk_files. relative_to f (Path target_folder) \<noteq> None"
      by (induction rule: list_all2_induct) auto
    from h have "list_all2 (\<lambda>b i. bulk_id (Path target_folder) b = str i
                      \<and> read_text fs (str b) = read_text fs (str i)) bulk_files individual_files"
      by (rule list_all2_mono) (auto simp: bulk_id_def)
    then have sv: "surviving fs (bulk_id (Path target_folder)) bulk_files =
        surviving fs str individual_files"
      by (rule surviving_two_lists)
    from h have "list_all2 (\<lambda>b i. read_text fs (str b) = read_text fs (str i))
        bulk_files individual_files"
      by (rule list_all2_mono) auto
    then have er: "list_all2 (\<lambda>m n. \<exists>p q e. m = ErrorReading p e \<and> n = ErrorReading q e)
           (read_errors fs bulk_files) (read_errors fs individual_files)"
      by (rule read_errors_two_lists)
    from sv er show ?thesis
      by (simp add: bulk_eq [OF under] individual_eq)
  qed
  have same: "generate_prompt fs target_folder files = generate_prompt_individual fs files"
    if h: "\<forall>f\<in>set files. \<exists>rel. relative_to f (Path target_folder) = Some rel
                               \<and> as_posix rel = str f"
  proof -
    from h have under: "\<forall>f\<in>set files. relative_to f (Path target_folder) \<noteq> None"
      by auto
    from h have "\<forall>f\<in>set files. bulk_id (Path target_folder) f = str f"
      by (auto simp: bulk_id_def)
    then have "surviving fs (bulk_id (Path target_folder)) files = surviving fs str files"
      by (simp add: surviving_def)
    then show ?thesis
      by (simp add: bulk_eq [OF under] individual_eq)
  qed
  from two same show ?thesis by blast
qed

lemma repo_rel:
  "relative_to (Path ''/repo/a.txt'') (Path ''/repo'') = Some (Path ''a.txt'')"
  "relative_to (Path ''/repo/b.txt'') (Path ''/repo'') = Some (Path ''b.txt'')"
  "relative_to (Path ''/repo/src/c.txt'') (Path ''/repo'') = Some (Path ''src/c.txt'')"
  by (simp_all add: relative_to_def Path_def splitroot_def)

lemma repo_str:
  "str (Path ''/repo/a.txt'') = ''/repo/a.txt''" "str (Path ''/repo/b.txt'') = ''/repo/b.txt''"
  "str (Path ''/repo/src/c.txt'') = ''/repo/src/c.txt''" "str (Path ''src/c.txt'') = ''src/c.txt''"
  by (simp_all add: str_def Path_def splitroot_def)

lemma repo_read:
  "read_text repo_fs ''/repo/a.txt'' = Inr ''hello''" "read_text repo_fs ''a.txt'' = Inr ''hello''"
  "read_text repo_fs ''/repo/b.txt'' = Inr []" "read_text repo_fs ''b.txt'' = Inr []"
  "read_text repo_fs ''/repo/src/c.txt'' = Inl PermissionError"
  "read_text repo_fs ''src/c.txt'' = Inl PermissionError"
  by (simp_all add: read_text_def repo_fs_def)

text \<open>Bulk mode on \<open>/repo/a.txt\<close>, \<open>/repo/b.txt\<close> and the unreadable \<open>/repo/src/c.txt\<close>
  under the root \<open>/repo\<close> against individual mode on \<open>a.txt\<close>, \<open>b.txt\<close> and
  \<open>src/c.txt\<close>; and one list for both modes under the root \<open>.\<close>.\<close>

theorem variants_agree_witness:
  "snd (generate_prompt repo_fs ''/repo''
          [Path ''/repo/a.txt'', Path ''/repo/b.txt'', Path ''/repo/src/c.txt'']) =
     snd (generate_prompt_individual repo_fs [Path ''a.txt'', Path ''b.txt'', Path ''src/c.txt''])
   \<and> snd (generate_prompt_individual repo_fs [Path ''a.txt'', Path ''b.txt'', Path ''src/c.txt'']) =
       Inr (''My codebase includes'' @ [LF] @ [QUOTE] @ ''a.txt'' @ [QUOTE] @ '' with ''
          @ [QUOTE] @ ''hello'' @ [QUOTE] @ [LF] @ ''.'')
   \<and> generate_prompt demo_fs ''.'' [Path ''a.txt'', Path ''b.txt''] =
     generate_prompt_individual demo_fs [Path ''a.txt'', Path ''b.txt'']
   \<and> generate_prompt_individual demo_fs [Path ''a.txt'', Path ''b.txt''] =
     ([], Inr (''My codebase includes'' @ [LF] @ [QUOTE] @ ''a.txt'' @ [QUOTE] @ '' with ''
          @ [QUOTE] @ ''hello'' @ [QUOTE] @ [LF] @ ''.''))"
proof -
  have two: "list_all2 (\<lambda>b i. (\<exists>rel. relative_to b (Path ''/repo'') = Some rel \<and> as_posix rel = str i)
                      \<and> read_text repo_fs (str b) = read_text repo_fs (str i))
       [Path ''/repo/a.txt'', Path ''/repo/b.txt'', Path ''/repo/src/c.txt'']
       [Path ''a.txt'', Path ''b.txt'', Path ''src/c.txt'']"
    by (simp add: repo_rel repo_str repo_read str_a str_b as_posix_def)
  have h: "\<forall>f\<in>set [Path ''a.txt'', Path ''b.txt''].
      \<exists>rel. relative_to f (Path ''.'') = Some rel \<and> as_posix rel = str f"
    by (simp add: rel_a rel_b as_posix_def)
  have r: "snd (generate_prompt_individual repo_fs [Path ''a.txt'', Path ''b.txt'', Path ''src/c.txt'']) =
       Inr (''My codebase includes'' @ [LF] @ [QUOTE] @ ''a.txt'' @ [QUOTE] @ '' with ''
          @ [QUOTE] @ ''hello'' @ [QUOTE] @ [LF] @ ''.'')"
    by (simp add: generate_prompt_individual_def str_a str_b repo_str repo_read strip_hello
        strip_Nil format_entry_def)
  have v: "generate_prompt_individual demo_fs [Path ''a.txt'', Path ''b.txt''] =
     ([], Inr (''My codebase includes'' @ [LF] @ [QUOTE] @ ''a.txt'' @ [QUOTE] @ '' with ''
          @ [QUOTE] @ ''hello'' @ [QUOTE] @ [LF] @ ''.''))"
    by (simp add: generate_prompt_individual_def str_a str_b read_a read_b strip_hello strip_Nil
        format_entry_def)
  from variants_agree [of "''/repo''" repo_fs
      "[Path ''/repo/a.txt'', Path ''/repo/b.txt'', Path ''/repo/src/c.txt'']"
      "[Path ''a.txt'', Path ''b.txt'', Path ''src/c.txt'']" "[]"]
    variants_agree [of "''.''" demo_fs "[]" "[]" "[Path ''a.txt'', Path ''b.txt'']"]
    two h r v
  show ?thesis by simp
qed

section \<open>The ignore-set store: lines, stripping and the round trip\<close>

lemma isspace_LF: "isspace LF"
  by (simp add: isspace_def)

lemma load_ignore_loop_eq:
  "load_ignore_loop lines S = S \<union> {p. p \<noteq> [] \<and> p \<in> strip ` set lines}"
  by (induction lines arbitrary: S) (auto simp: Let_def)

lemma finite_load_ignore_loop: "finite S \<Longrightarrow> finite (load_ignore_loop lines S)"
  by (induction lines arbitrary: S) (auto simp: Let_def)

lemma set_strip: "set (strip s) \<subseteq> set s"
proof -
  have "set (rstrip t) \<subseteq> set t" for t
    using set_dropWhileD [of _ isspace "rev t"] by (auto simp: rstrip_def)
  moreover have "set (lstrip s) \<subseteq> set s"
    using set_dropWhileD [of _ isspace s] by (auto simp: lstrip_def)
  ultimately show ?thesis unfolding strip_def by blast
qed

lemma strip_snoc_space: "isspace c \<Longrightarrow> strip (s @ [c]) = strip s"
proof -
  assume c: "isspace c"
  show ?thesis
  proof (cases "\<forall>x\<in>set s. isspace x")
    case True
    then have "lstrip s = []" by (simp add: lstrip_def dropWhile_eq_Nil_conv)
    moreover from True c have "lstrip (s @ [c]) = []"
      by (simp add: lstrip_def dropWhile_eq_Nil_conv)
    ultimately show ?thesis by (simp add: strip_def)
  next
    case False
    then have "dropWhile isspace (s @ [c]) = dropWhile isspace s @ [c]"
      by (auto simp: dropWhile_append1)
    with c show ?thesis by (simp add: strip_def lstrip_def rstrip_def)
  qed
qed

lemma strip_ends:
  assumes "strip s \<noteq> []"
  shows "\<not> isspace (hd (strip s)) \<and> \<not> isspace (last (strip s))"
proof -
  define l where "l = dropWhile isspace s"
  define d where "d = dropWhile isspace (rev l)"
  have p: "strip s = rev d" by (simp add: strip_def lstrip_def rstrip_def l_def d_def)
  with assms have dne: "d \<noteq> []" by simp
  then have "\<not> isspace (hd d)" unfolding d_def by (rule hd_dropWhile)
  with dne have lastp: "\<not> isspace (last (strip s))" by (simp add: p last_rev)
  have split: "rev l = takeWhile isspace (rev l) @ d" by (simp add: d_def)
  from dne have lne: "l \<noteq> []" by (auto simp: d_def)
  then have "\<not> isspace (hd l)" unfolding l_def by (rule hd_dropWhile)
  moreover have "last d = last (rev l)" using split dne by (metis last_appendR)
  moreover have "last (rev l) = hd l" using lne by (simp add: last_rev)
  moreover have "hd (strip s) = last d" using dne by (simp add: p hd_rev)
  ultimately show ?thesis using lastp by simp
qed

lemma strip_fixed:
  assumes "p \<noteq> []" "\<not> isspace (hd p)" "\<not> isspace (last p)"
  shows "strip p = p"
proof -
  from assms have "lstrip p = p" by (cases p) (simp_all add: lstrip_def)
  moreover from assms have "rstrip p = p"
    by (cases p rule: rev_cases) (simp_all add: rstrip_def)
  ultimately show ?thesis by (simp add: strip_def)
qed

lemma CR_notin_universal_newlines: "CR \<notin> set (universal_newlines s)"
  by (induction s rule: universal_newlines.induct) auto

lemma universal_newlines_id: "CR \<notin> set s \<Longrightarrow> universal_newlines s = s"
  by (induction s rule: universal_newlines.induct) auto

lemma readlines_line:
  "LF \<notin> set p \<Longrightarrow> readlines acc (p @ LF # rest) = (acc @ p @ [LF]) # readlines [] rest"
  by (induction p arbitrary: acc) auto

lemma readlines_lines:
  "\<forall>p\<in>set ps. LF \<notin> set p \<Longrightarrow>
   readlines [] (concat (map (\<lambda>p. p @ [LF]) ps)) = map (\<lambda>p. p @ [LF]) ps"
  by (induction ps) (simp_all add: readlines_line)

lemma readlines_shape:
  "l \<in> set (readlines acc s) \<Longrightarrow> LF \<notin> set acc \<Longrightarrow>
     (\<exists>u. LF \<notin> set u \<and> (l = u @ [LF] \<or> l = u) \<and> set u \<subseteq> set acc \<union> set s)"
proof (induction s arbitrary: acc)
  case Nil
  then show ?case by (auto split: if_splits)
next
  case (Cons c cs)
  show ?case
  proof (cases "c = LF")
    case True
    with Cons.prems have "l = acc @ [LF] \<or> l \<in> set (readlines [] cs)" by auto
    then show ?thesis
    proof
      assume "l = acc @ [LF]"
      with Cons.prems show ?thesis by auto
    next
      assume "l \<in> set (readlines [] cs)"
      from Cons.IH [OF this] show ?thesis by auto
    qed
  next
    case False
    with Cons.prems have "l \<in> set (readlines (acc @ [c]) cs)" by auto
    from Cons.IH [OF this] False Cons.prems show ?thesis by auto
  qed
qed

text \<open>An iteration that raises makes \<open>load_ignore_paths\<close> raise, so its result is the
  one of reading the file as a whole.\<close>

lemma load_ignore_paths_read:
  "load_ignore_paths fs =
     (if exists fs IGNORE_FILE
      then (case read_text fs IGNORE_FILE of
              Inl e \<Rightarrow> Inl e
            | Inr body \<Rightarrow> Inr (load_ignore_loop (readlines [] body) {}))
      else Inr {})"
  by (simp add: load_ignore_paths_def iterate_lines_def read_text_def
      split: option.splits node.splits content.splits)

lemma loaded_pattern_ok:
  assumes "l \<in> set (readlines [] (universal_newlines t))" "strip l \<noteq> []"
  shows "pattern_ok (strip l)"
proof -
  from readlines_shape [OF assms(1)] obtain u where
    u: "LF \<notin> set u" "l = u @ [LF] \<or> l = u" "set u \<subseteq> set (universal_newlines t)"
    by auto
  from u(2) have eq: "strip l = strip u" by (auto simp: strip_snoc_space isspace_LF)
  have "set (strip u) \<subseteq> set u" by (rule set_strip)
  with u CR_notin_universal_newlines [of t] have "LF \<notin> set (strip u) \<and> CR \<notin> set (strip u)"
    by blast
  with strip_ends [OF assms(2)] assms(2) eq show ?thesis by (simp add: pattern_ok_def)
qed

lemma load_ignore_paths_ok:
  assumes "load_ignore_paths fs = Inr S"
  shows "finite S \<and> (\<forall>p\<in>S. pattern_ok p)"
proof (cases "exists fs IGNORE_FILE")
  case False
  with assms show ?thesis by (simp add: load_ignore_paths_read)
next
  case True
  with assms obtain body where
    rd: "read_text fs IGNORE_FILE = Inr body" and S: "S = load_ignore_loop (readlines [] body) {}"
    by (auto simp: load_ignore_paths_read split: sum.splits)
  from rd obtain t where t: "body = universal_newlines t"
    by (auto simp: read_text_def split: option.splits node.splits content.splits if_splits)
  have "finite S" by (simp add: S finite_load_ignore_loop)
  moreover have "\<forall>p\<in>S. pattern_ok p"
    using loaded_pattern_ok [of _ t] by (auto simp: S t load_ignore_loop_eq)
  ultimately show ?thesis by simp
qed

lemma reload_sorted:
  assumes "finite S" "\<forall>p\<in>S. pattern_ok p"
  defines "body \<equiv> concat (map (\<lambda>p. p @ [LF]) (sorted_list_of_set S))"
  shows "universal_newlines body = body"
    and "load_ignore_loop (readlines [] body) {} = S"
proof -
  let ?ps = "sorted_list_of_set S"
  from assms(1) have ps: "set ?ps = S" by simp
  with assms(2) have ok: "\<forall>p\<in>set ?ps. pattern_ok p" by simp
  then have "CR \<notin> set body" by (auto simp: body_def pattern_ok_def)
  then show "universal_newlines body = body" by (rule universal_newlines_id)
  from ok have "\<forall>p\<in>set ?ps. LF \<notin> set p" by (simp add: pattern_ok_def)
  then have lines: "readlines [] body = map (\<lambda>p. p @ [LF]) ?ps"
    unfolding body_def by (rule readlines_lines)
  have st: "strip (p @ [LF]) = p" if "p \<in> S" for p
  proof -
    from that assms(2) have "pattern_ok p" by simp
    then have "strip p = p" by (simp add: pattern_ok_def strip_fixed)
    then show ?thesis by (simp add: strip_snoc_space isspace_LF)
  qed
  have ne: "p \<noteq> []" if "p \<in> S" for p
    using that assms(2) by (auto simp: pattern_ok_def)
  show "load_ignore_loop (readlines [] body) {} = S"
    using st ne by (auto simp: lines load_ignore_loop_eq ps image_iff)
qed

text \<open>
  Claim C6. Loading the ignore file when it is missing returns the empty set and
  raises nothing. Saving the set that was loaded and loading again returns the same
  set, and the file then holds the patterns in sorted order, one per line.
\<close>

theorem ignore_store_round_trip:
  "(\<not> exists fs IGNORE_FILE \<longrightarrow> load_ignore_paths fs = Inr {})
   \<and> (load_ignore_paths fs = Inr S \<and> save_ignore_paths fs S = Inr fs' \<longrightarrow>
        load_ignore_paths fs' = Inr S
      \<and> read_text fs' IGNORE_FILE =
          Inr (concat (map (\<lambda>p. p @ [LF]) (sorted_list_of_set S))))"
proof -
  have missing: "load_ignore_paths fs = Inr {}" if "\<not> exists fs IGNORE_FILE"
    using that by (simp add: load_ignore_paths_read)
  have rt: "load_ignore_paths fs' = Inr S
      \<and> read_text fs' IGNORE_FILE =
          Inr (concat (map (\<lambda>p. p @ [LF]) (sorted_list_of_set S)))"
    if ld: "load_ignore_paths fs = Inr S" and sv: "save_ignore_paths fs S = Inr fs'"
  proof -
    let ?text = "concat (map (\<lambda>p. p @ [LF]) (sorted_list_of_set S))"
    from load_ignore_paths_ok [OF ld] have fin: "finite S" and ok: "\<forall>p\<in>S. pattern_ok p"
      by simp_all
    have readable: "r" if "node fs IGNORE_FILE = Some (Regular r w d)" for r w d
      using ld that by (auto simp: load_ignore_paths_read exists_def read_text_def split: if_splits)
    from sv have "\<exists>w. node fs' IGNORE_FILE = Some (Regular True w (Text ?text))"
      using readable
      by (auto simp: save_ignore_paths_def write_text_def
          split: option.splits node.splits content.splits if_splits)
    then have rd: "read_text fs' IGNORE_FILE = Inr (universal_newlines ?text)"
      and ex: "exists fs' IGNORE_FILE"
      by (auto simp: read_text_def exists_def)
    from reload_sorted [OF fin ok] rd ex show ?thesis
      by (simp add: load_ignore_paths_read)
  qed
  from missing rt show ?thesis by blast
qed

text \<open>A file with a repeated pattern, padding, a blank line and a \<open>"\\r\\n"\<close> line
  end is saved as the two patterns in sorted order; a missing file loads as the empty
  set.\<close>

theorem ignore_store_round_trip_witness:
  "load_ignore_paths ignore_fs = Inr {''build'', ''src''}
   \<and> save_ignore_paths ignore_fs {''build'', ''src''} = Inr ignore_fs_saved
   \<and> load_ignore_paths ignore_fs_saved = Inr {''build'', ''src''}
   \<and> read_text ignore_fs_saved IGNORE_FILE = Inr (''build'' @ [LF] @ ''src'' @ [LF])
   \<and> \<not> exists demo_fs IGNORE_FILE
   \<and> load_ignore_paths demo_fs = Inr {}"
proof -
  have ld: "load_ignore_paths ignore_fs = Inr {''build'', ''src''}"
    by (auto simp add: load_ignore_paths_read ignore_fs_def exists_def read_text_def strip_def
        lstrip_def rstrip_def isspace_def Let_def)
  have sorted: "sorted_list_of_set {''build'', ''src''} = [''build'', ''src'']"
    by simp
  have sv: "save_ignore_paths ignore_fs {''build'', ''src''} = Inr ignore_fs_saved"
    by (simp add: save_ignore_paths_def sorted write_text_def ignore_fs_def ignore_fs_saved_def)
  have missing: "\<not> exists demo_fs IGNORE_FILE"
    by (simp add: exists_def demo_fs_def IGNORE_FILE_def)
  from ignore_store_round_trip [of ignore_fs "{''build'', ''src''}" ignore_fs_saved]
    ignore_store_round_trip [of demo_fs "{}" demo_fs]
    ld sv missing sorted
  show ?thesis by simp
qed

section \<open>The individual list loader: what the two loops compute\<close>

lemma target_files_loop_eq:
  "target_files_loop fs lines file_paths out =
     (file_paths @ valid_paths fs (candidates_A lines),
      out @ warnings fs TARGET_FILES_FILE (candidates_A lines))"
  by (induction lines arbitrary: file_paths out)
    (simp_all add: Let_def valid_paths_def candidates_A_def warnings_def)

lemma script_loop_eq:
  "script_loop fs lines file_paths out =
     (file_paths @ valid_paths fs (candidates_B lines),
      out @ warnings fs INDIVIDUAL_FILES_SCRIPT (candidates_B lines))"
  by (induction lines arbitrary: file_paths out)
    (simp_all add: Let_def valid_paths_def candidates_B_def warnings_def)

lemma loader_eq:
  "load_individual_files_from_file fs =
     (case source_A fs of
        (wa, Inl e) \<Rightarrow> (wa, Inl e)
      | (wa, Inr a) \<Rightarrow>
          if a \<noteq> [] then (wa @ [Loaded (length a) TARGET_FILES_FILE], Inr (Some a))
          else (let out = wa @ (if exists fs TARGET_FILES_FILE
                                then [NoValidPaths TARGET_FILES_FILE] else [])
                in case source_B fs of
                     (wb, Inl e) \<Rightarrow> (out @ wb, Inl e)
                   | (wb, Inr b) \<Rightarrow>
                       if b \<noteq> []
                       then (out @ wb @ [Loaded (length b) INDIVIDUAL_FILES_SCRIPT],
                             Inr (Some b))
                       else (out @ wb
                               @ (if exists fs INDIVIDUAL_FILES_SCRIPT
                                  then [NoValidPaths INDIVIDUAL_FILES_SCRIPT] else [])
                               @ [NothingLoaded],
                             Inr None)))"
  by (simp add: load_individual_files_from_file_def source_A_def source_B_def source_def
      target_files_loop_eq script_loop_eq Let_def
      split: sum.splits option.splits prod.splits)

lemma loader_none:
  "snd (load_individual_files_from_file fs) = Inr None \<longleftrightarrow>
     snd (source_A fs) = Inr [] \<and> snd (source_B fs) = Inr []"
  by (auto simp: loader_eq Let_def split: sum.splits prod.splits if_splits)

lemma warnings_not_blank: "WarningInvalid [] src \<notin> set (warnings fs name (candidates_A lines))"
  "WarningInvalid [] src \<notin> set (warnings fs name (candidates_B lines))"
  by (auto simp: warnings_def candidates_A_def candidates_B_def)

lemma loader_no_blank_warning:
  "WarningInvalid [] src \<notin> set (fst (load_individual_files_from_file fs))"
  using warnings_not_blank [of src fs]
  by (auto simp: loader_eq source_A_def source_B_def source_def Let_def
      split: sum.splits prod.splits option.splits if_splits)

text \<open>
  Claim C7, amended. The loader reads source A: the lines are stripped, the blank ones
  are skipped without a message, and each of the others is kept when it names an
  existing regular file and otherwise skipped with a warning. Only when source A yields
  no valid path (also when it is absent) is source B read, where the blank lines and
  the lines that start with \<open>#\<close> are skipped and the others are checked in the same
  way. The result is \<open>None\<close> exactly when neither source yields a valid path. A
  source that exists and cannot be opened or decoded raises to the caller, after the
  warnings of the lines read before the failure. The messages printed are exactly the
  warnings of the sources read, in order, with the summary lines of the program.
\<close>

theorem individual_loader_fallback:
  "load_individual_files_from_file fs =
     (case source_A fs of
        (wa, Inl e) \<Rightarrow> (wa, Inl e)
      | (wa, Inr a) \<Rightarrow>
          if a \<noteq> [] then (wa @ [Loaded (length a) TARGET_FILES_FILE], Inr (Some a))
          else (let out = wa @ (if exists fs TARGET_FILES_FILE
                                then [NoValidPaths TARGET_FILES_FILE] else [])
                in case source_B fs of
                     (wb, Inl e) \<Rightarrow> (out @ wb, Inl e)
                   | (wb, Inr b) \<Rightarrow>
                       if b \<noteq> []
                       then (out @ wb @ [Loaded (length b) INDIVIDUAL_FILES_SCRIPT],
                             Inr (Some b))
                       else (out @ wb
                               @ (if exists fs INDIVIDUAL_FILES_SCRIPT
                                  then [NoValidPaths INDIVIDUAL_FILES_SCRIPT] else [])
                               @ [NothingLoaded],
                             Inr None)))
   \<and> (snd (load_individual_files_from_file fs) = Inr None \<longleftrightarrow>
        snd (source_A fs) = Inr [] \<and> snd (source_B fs) = Inr [])
   \<and> WarningInvalid [] src \<notin> set (fst (load_individual_files_from_file fs))"
  using loader_eq [of fs] loader_none [of fs] loader_no_blank_warning [of src fs]
  by (simp only: simp_thms)

lemma iterate_loader:
  "iterate_lines loader_fs TARGET_FILES_FILE =
     Inr ([''missing.txt\<newline>'', ''\<newline>'', '' a.txt \<newline>''], None)"
  by (simp add: iterate_lines_def loader_fs_def TARGET_FILES_FILE_def INDIVIDUAL_FILES_SCRIPT_def)

lemma exists_target_loader: "exists loader_fs TARGET_FILES_FILE"
  by (simp add: exists_def loader_fs_def TARGET_FILES_FILE_def INDIVIDUAL_FILES_SCRIPT_def)

lemma strips_loader:
  "strip ''missing.txt\<newline>'' = ''missing.txt''" "strip ''\<newline>'' = []"
  "strip '' a.txt \<newline>'' = ''a.txt''" "strip ''a.txt\<newline>'' = ''a.txt''"
  by (simp_all add: strip_def lstrip_def rstrip_def isspace_def)

lemma isfile_loader:
  "\<not> isfile loader_fs ''missing.txt''" "\<not> isfile loader_fs []" "isfile loader_fs ''a.txt''"
  by (simp_all add: isfile_def loader_fs_def TARGET_FILES_FILE_def INDIVIDUAL_FILES_SCRIPT_def)

lemma load_loader:
  "load_individual_files_from_file loader_fs =
     ([WarningInvalid ''missing.txt'' TARGET_FILES_FILE, Loaded 1 TARGET_FILES_FILE],
      Inr (Some [Path ''a.txt'']))"
  by (simp add: load_individual_files_from_file_def iterate_loader
      strips_loader isfile_loader exists_target_loader Let_def)

text \<open>
  Claim C7 as it is stated fails on a blank line of source A: the second line of the
  primary list below is blank, it names no existing regular file, and no warning is
  printed for it.
\<close>

theorem loader_blank_line_counterexample:
  "iterate_lines loader_fs TARGET_FILES_FILE =
     Inr ([''missing.txt'' @ [LF], [LF], '' a.txt '' @ [LF]], None)
   \<and> \<not> isfile loader_fs (strip [LF])
   \<and> load_individual_files_from_file loader_fs =
     ([WarningInvalid ''missing.txt'' TARGET_FILES_FILE, Loaded 1 TARGET_FILES_FILE],
      Inr (Some [Path ''a.txt'']))
   \<and> \<not> (\<forall>line\<in>set [''missing.txt'' @ [LF], [LF], '' a.txt '' @ [LF]].
          \<not> isfile loader_fs (strip line) \<longrightarrow>
            (\<exists>src. WarningInvalid (strip line) src
                     \<in> set (fst (load_individual_files_from_file loader_fs))))"
  by (simp add: load_loader iterate_loader strips_loader isfile_loader)

lemma source_loader:
  "source_A loader_fs =
     ([WarningInvalid ''missing.txt'' TARGET_FILES_FILE], Inr [Path ''a.txt''])"
  by (simp add: source_A_def source_def exists_target_loader iterate_loader candidates_A_def
      warnings_def valid_paths_def strips_loader isfile_loader)

lemma iterate_fallback:
  "iterate_lines fallback_fs TARGET_FILES_FILE = Inr ([''missing.txt\<newline>''], None)"
  "iterate_lines fallback_fs INDIVIDUAL_FILES_SCRIPT =
     Inr ([''#!/bin/bash\<newline>'', ''# paths\<newline>'', ''\<newline>'', ''b.txt\<newline>'', ''gone.txt\<newline>''], None)"
  by (simp_all add: iterate_lines_def fallback_fs_def TARGET_FILES_FILE_def
      INDIVIDUAL_FILES_SCRIPT_def)

lemma exists_fallback:
  "exists fallback_fs TARGET_FILES_FILE" "exists fallback_fs INDIVIDUAL_FILES_SCRIPT"
  by (simp_all add: exists_def fallback_fs_def TARGET_FILES_FILE_def INDIVIDUAL_FILES_SCRIPT_def)

lemma isfile_fallback:
  "\<not> isfile fallback_fs ''missing.txt''" "\<not> isfile fallback_fs ''gone.txt''"
  "isfile fallback_fs ''b.txt''"
  by (simp_all add: isfile_def fallback_fs_def TARGET_FILES_FILE_def INDIVIDUAL_FILES_SCRIPT_def)

lemma candidates_fallback:
  "candidates_B [''#!/bin/bash\<newline>'', ''# paths\<newline>'', ''\<newline>'', ''b.txt\<newline>'', ''gone.txt\<newline>'']
     = [''b.txt'', ''gone.txt'']"
  by (simp add: candidates_B_def strip_def lstrip_def rstrip_def isspace_def startswith_def)

lemma source_fallback:
  "source_A fallback_fs = ([WarningInvalid ''missing.txt'' TARGET_FILES_FILE], Inr [])"
  "source_B fallback_fs =
     ([WarningInvalid ''gone.txt'' INDIVIDUAL_FILES_SCRIPT], Inr [Path ''b.txt''])"
  by (simp_all add: source_A_def source_B_def source_def exists_fallback iterate_fallback
      candidates_A_def candidates_fallback warnings_def valid_paths_def strips_loader
      isfile_fallback)

lemma exists_demo:
  "\<not> exists demo_fs TARGET_FILES_FILE" "\<not> exists demo_fs INDIVIDUAL_FILES_SCRIPT"
  by (simp_all add: exists_def demo_fs_def TARGET_FILES_FILE_def INDIVIDUAL_FILES_SCRIPT_def)

lemma source_demo: "source_A demo_fs = ([], Inr [])" "source_B demo_fs = ([], Inr [])"
  by (simp_all add: source_A_def source_B_def source_def exists_demo)

lemma iterate_garbled:
  "iterate_lines garbled_fs TARGET_FILES_FILE =
     Inr ([''missing.txt\<newline>'', ''a.txt\<newline>''], Some UnicodeDecodeError)"
  by (simp add: iterate_lines_def garbled_fs_def TARGET_FILES_FILE_def complete_lines_def)

lemma exists_garbled: "exists garbled_fs TARGET_FILES_FILE"
  by (simp add: exists_def garbled_fs_def TARGET_FILES_FILE_def)

lemma isfile_garbled: "\<not> isfile garbled_fs ''missing.txt''" "isfile garbled_fs ''a.txt''"
  by (simp_all add: isfile_def garbled_fs_def TARGET_FILES_FILE_def)

lemma source_garbled:
  "source_A garbled_fs =
     ([WarningInvalid ''missing.txt'' TARGET_FILES_FILE], Inl UnicodeDecodeError)"
  by (simp add: source_A_def source_def exists_garbled iterate_garbled candidates_A_def
      warnings_def strips_loader isfile_garbled)

text \<open>The primary list with one missing and one existing path returns the existing
  one and warns about the other; a primary list without a valid path falls back to the
  script; with neither file the result is \<open>None\<close>; a primary list whose bytes stop
  decoding in its third line raises after the warning of its first line.\<close>

theorem individual_loader_fallback_witness:
  "load_individual_files_from_file loader_fs =
     ([WarningInvalid ''missing.txt'' TARGET_FILES_FILE, Loaded 1 TARGET_FILES_FILE],
      Inr (Some [Path ''a.txt'']))
   \<and> load_individual_files_from_file fallback_fs =
     ([WarningInvalid ''missing.txt'' TARGET_FILES_FILE, NoValidPaths TARGET_FILES_FILE,
       WarningInvalid ''gone.txt'' INDIVIDUAL_FILES_SCRIPT, Loaded 1 INDIVIDUAL_FILES_SCRIPT],
      Inr (Some [Path ''b.txt'']))
   \<and> load_individual_files_from_file demo_fs = ([NothingLoaded], Inr None)
   \<and> load_individual_files_from_file garbled_fs =
     ([WarningInvalid ''missing.txt'' TARGET_FILES_FILE], Inl UnicodeDecodeError)"
  using individual_loader_fallback [of loader_fs] individual_loader_fallback [of fallback_fs]
    individual_loader_fallback [of demo_fs] individual_loader_fallback [of garbled_fs]
  by (simp add: source_loader source_fallback source_demo source_garbled exists_fallback
      exists_demo)

end
